theory Spec2Isabelle
  imports Main "HOL-Library.Word" "HOL-Library.Signed_Division"
begin

section \<open>Data model of the components package\<close>

text \<open>
  Go's \<^verbatim>\<open>int\<close> is modelled as a 64-bit word: \<open>+\<close> and \<open>-\<close> wrap around, comparisons
  are the signed ones (\<open>\<le>s\<close>, \<open><s\<close>), and \<^verbatim>\<open>/\<close> truncates towards zero.
\<close>

type_synonym gint = "64 word"

definition quo :: "gint \<Rightarrow> gint \<Rightarrow> gint" where
  "quo a b = word_of_int (sint a sdiv sint b)"

text \<open>\<^verbatim>\<open>type Rect struct { X, Y, Width, Height int }\<close> and \<^verbatim>\<open>type Point struct { X, Y int }\<close>
  (the fields of \<open>Point\<close> carry a prefix, record fields being global names).\<close>

record Rect =
  X :: gint
  Y :: gint
  Width :: gint
  Height :: gint

record Point =
  ptX :: gint
  ptY :: gint

text \<open>\<^verbatim>\<open>Spacing\<close> and \<^verbatim>\<open>BoxModel\<close>. The \<^verbatim>\<open>Border\<close> field is read by \<^verbatim>\<open>Draw\<close> only and is
  left out.\<close>

record Spacing =
  Top :: gint
  Right :: gint
  Bottom :: gint
  Left :: gint

record BoxModel =
  Margin :: Spacing
  Padding :: Spacing

datatype PositionType = PositionRelative | PositionAbsolute | PositionFixed

datatype FlexDirection = FlexRow | FlexColumn

datatype Alignment = AlignStart | AlignCenter | AlignEnd | AlignStretch

text \<open>
  An \<^verbatim>\<open>Element\<close> interface value is a dynamic type together with a pointer. The dynamic
  type decides which method body a call reaches (Go's embedding promotes the methods
  of \<^verbatim>\<open>BaseElement\<close> to \<^verbatim>\<open>Node\<close> and those of \<^verbatim>\<open>Node\<close> to the widgets unless a widget
  declares its own), and whether the type assertion to \<^verbatim>\<open>NodeElement\<close> succeeds:
  \<^verbatim>\<open>*BaseElement\<close> has no \<^verbatim>\<open>ComputedBounds\<close> method, so it is not a \<^verbatim>\<open>NodeElement\<close>.
  Two interface values are equal when type and pointer are.
\<close>

type_synonym addr = nat

datatype dyn = TBaseElement | TNode | TFlexContainer | TButton | TCheckbox

datatype Element = Element dyn addr

fun addr_of :: "Element \<Rightarrow> addr" where
  "addr_of (Element t a) = a"

fun isNodeElement :: "Element \<Rightarrow> bool" where
  "isNodeElement (Element t a) = (t \<noteq> TBaseElement)"

text \<open>
  One heap object holds the fields of \<^verbatim>\<open>BaseElement\<close>, of \<^verbatim>\<open>Node\<close> and of the widget
  structs that the modelled methods read or write, as the constructors
  (\<^verbatim>\<open>NewNode\<close>, \<^verbatim>\<open>NewFlexContainer\<close>, \<^verbatim>\<open>NewButton\<close>, \<^verbatim>\<open>NewCheckbox\<close>) allocate them
  together. \<^verbatim>\<open>Button\<close> declares a \<^verbatim>\<open>pressed\<close> field of its own, which hides the one of
  \<^verbatim>\<open>BaseElement\<close>: it is \<open>buttonPressed\<close> here. Callbacks are closures of the
  application; the model keeps the identity of a registered callback (\<open>None\<close> is
  \<^verbatim>\<open>nil\<close>) and records each invocation in a trace.
\<close>

record obj =
  bounds :: Rect
  parent :: "Element option"
  children :: "Element list"
  mouseOver :: bool
  pressed :: bool
  positionType :: PositionType
  boxModel :: BoxModel
  relativePos :: Point
  flexDirection :: FlexDirection
  alignItems :: Alignment
  spacing :: gint
  onClick :: "nat option"
  hovered :: bool
  buttonPressed :: bool
  disabled :: bool
  checked :: bool
  checkedChanged :: "nat option"

type_synonym heap = "addr \<Rightarrow> obj"

datatype event = Click nat | CheckedChanged nat bool

record world =
  heap :: heap
  trace :: "event list"

section \<open>BaseElement accessors\<close>

definition Bounds :: "addr \<Rightarrow> heap \<Rightarrow> Rect" where
  "Bounds b h = bounds (h b)"

definition SetBounds :: "addr \<Rightarrow> Rect \<Rightarrow> heap \<Rightarrow> heap" where
  "SetBounds b r h = h(b := (h b)\<lparr>bounds := r\<rparr>)"

definition Parent :: "addr \<Rightarrow> heap \<Rightarrow> Element option" where
  "Parent b h = parent (h b)"

definition SetParent :: "addr \<Rightarrow> Element option \<Rightarrow> heap \<Rightarrow> heap" where
  "SetParent b p h = h(b := (h b)\<lparr>parent := p\<rparr>)"

definition Children :: "addr \<Rightarrow> heap \<Rightarrow> Element list" where
  "Children b h = children (h b)"

definition PointInRect :: "Point \<Rightarrow> Rect \<Rightarrow> bool" where
  "PointInRect p r \<longleftrightarrow>
     X r \<le>s ptX p \<and> ptX p <s X r + Width r \<and> Y r \<le>s ptY p \<and> ptY p <s Y r + Height r"

section \<open>Node.ComputedBounds\<close>

text \<open>
  The method is translated statement by statement, the heap being passed through the
  recursive call on the parent and returned. A parent chain that loops through
  \<^verbatim>\<open>NodeElement\<close> parents makes the Go method recurse for ever; here the result is then
  \<open>None\<close>. \<open>contentArea\<close> is the block that applies the parent's padding.
\<close>

definition contentArea :: "BoxModel \<Rightarrow> Rect \<Rightarrow> Rect" where
  "contentArea parentBoxModel parentBounds =
     parentBounds
       \<lparr>X := X parentBounds + Left (Padding parentBoxModel),
        Y := Y parentBounds + Top (Padding parentBoxModel),
        Width := Width parentBounds
                   - (Left (Padding parentBoxModel) + Right (Padding parentBoxModel)),
        Height := Height parentBounds
                   - (Top (Padding parentBoxModel) + Bottom (Padding parentBoxModel))\<rparr>"

definition positioned :: "obj \<Rightarrow> Rect \<Rightarrow> Rect \<Rightarrow> Rect" where
  "positioned d parentBounds bnds =
     (if positionType d = PositionRelative
      then bnds\<lparr>X := X parentBounds + ptX (relativePos d),
                Y := Y parentBounds + ptY (relativePos d)\<rparr>
      else if positionType d = PositionAbsolute
      then bnds\<lparr>X := X parentBounds + ptX (relativePos d),
                Y := Y parentBounds + ptY (relativePos d)\<rparr>
      else bnds)"

definition applyMargin :: "obj \<Rightarrow> Rect \<Rightarrow> Rect" where
  "applyMargin d bnds =
     bnds\<lparr>X := X bnds + Left (Margin (boxModel d)),
          Y := Y bnds + Top (Margin (boxModel d))\<rparr>"

partial_function (option) ComputedBounds :: "addr \<Rightarrow> heap \<Rightarrow> (Rect \<times> heap) option" where
  "ComputedBounds d h =
     (let bnds = Bounds d h in
      if positionType (h d) \<noteq> PositionFixed \<and> Parent d h \<noteq> None then
        (case Parent d h of
           None \<Rightarrow> None
         | Some domParent \<Rightarrow>
             if isNodeElement domParent then
               Option.bind (ComputedBounds (addr_of domParent) h)
                 (\<lambda>res.
                    let parentBounds = fst res; h1 = snd res in
                    Some (applyMargin (h1 d)
                            (positioned (h1 d)
                               (contentArea (boxModel (h1 (addr_of domParent))) parentBounds)
                               bnds), h1))
             else
               Some (applyMargin (h d)
                       (positioned (h d) (Bounds (addr_of domParent) h) bnds), h))
      else Some (applyMargin (h d) bnds, h))"

section \<open>BaseElement: children and hit test\<close>

text \<open>
  \<^verbatim>\<open>AddChild\<close> appends and calls \<^verbatim>\<open>child.SetParent(b)\<close> with \<^verbatim>\<open>b\<close> the \<^verbatim>\<open>*BaseElement\<close>
  receiver, so the parent reference it stores has dynamic type \<^verbatim>\<open>*BaseElement\<close>
  whatever widget the parent is part of. \<^verbatim>\<open>SetParent\<close> is declared by \<^verbatim>\<open>BaseElement\<close>
  only. \<^verbatim>\<open>RemoveChild\<close> deletes the first element equal to \<^verbatim>\<open>child\<close> and stops.
\<close>

definition AddChild :: "addr \<Rightarrow> Element \<Rightarrow> heap \<Rightarrow> heap" where
  "AddChild b child h =
     SetParent (addr_of child) (Some (Element TBaseElement b))
       (h(b := (h b)\<lparr>children := children (h b) @ [child]\<rparr>))"

fun removeFirst :: "Element \<Rightarrow> Element list \<Rightarrow> Element list" where
  "removeFirst child [] = []"
| "removeFirst child (c # cs) = (if c = child then cs else c # removeFirst child cs)"

definition RemoveChild :: "addr \<Rightarrow> Element \<Rightarrow> heap \<Rightarrow> heap" where
  "RemoveChild b child h = h(b := (h b)\<lparr>children := removeFirst child (children (h b))\<rparr>)"

definition IsMouseOver :: "addr \<Rightarrow> gint \<Rightarrow> gint \<Rightarrow> heap \<Rightarrow> bool" where
  "IsMouseOver b x y h = PointInRect \<lparr>ptX = x, ptY = y\<rparr> (bounds (h b))"

section \<open>FlexContainer layout\<close>

text \<open>
  The two loops of \<^verbatim>\<open>updateLayout\<close>, with the cursor as an argument. Each iteration
  reads the child's bounds, resolves the cross axis from \<^verbatim>\<open>alignItems\<close>, calls
  \<^verbatim>\<open>SetBounds\<close> and advances the cursor. \<open>flexDirection\<close>, \<open>alignItems\<close> and
  \<open>spacing\<close> are the fields that \<^verbatim>\<open>FlexContainer\<close> declares.
\<close>

fun layoutRow :: "addr \<Rightarrow> gint \<Rightarrow> gint \<Rightarrow> gint \<Rightarrow> Element list \<Rightarrow> heap \<Rightarrow> heap" where
  "layoutRow f contentY contentHeight x [] h = h"
| "layoutRow f contentY contentHeight x (child # rest) h =
     (let childBounds = Bounds (addr_of child) h;
          childHeight = Height childBounds;
          yh = (case alignItems (h f) of
                  AlignStart \<Rightarrow> (contentY, childHeight)
                | AlignCenter \<Rightarrow> (contentY + quo (contentHeight - childHeight) 2, childHeight)
                | AlignEnd \<Rightarrow> (contentY + contentHeight - childHeight, childHeight)
                | AlignStretch \<Rightarrow> (contentY, contentHeight));
          h' = SetBounds (addr_of child)
                 \<lparr>X = x, Y = fst yh, Width = Width childBounds, Height = snd yh\<rparr> h
      in layoutRow f contentY contentHeight (x + Width childBounds + spacing (h' f)) rest h')"

fun layoutColumn :: "addr \<Rightarrow> gint \<Rightarrow> gint \<Rightarrow> gint \<Rightarrow> Element list \<Rightarrow> heap \<Rightarrow> heap" where
  "layoutColumn f contentX contentWidth y [] h = h"
| "layoutColumn f contentX contentWidth y (child # rest) h =
     (let childBounds = Bounds (addr_of child) h;
          childWidth = Width childBounds;
          xw = (case alignItems (h f) of
                  AlignStart \<Rightarrow> (contentX, childWidth)
                | AlignCenter \<Rightarrow> (contentX + quo (contentWidth - childWidth) 2, childWidth)
                | AlignEnd \<Rightarrow> (contentX + contentWidth - childWidth, childWidth)
                | AlignStretch \<Rightarrow> (contentX, contentWidth));
          h' = SetBounds (addr_of child)
                 \<lparr>X = fst xw, Y = y, Width = snd xw, Height = Height childBounds\<rparr> h
      in layoutColumn f contentX contentWidth (y + Height childBounds + spacing (h' f)) rest h')"

definition updateLayout :: "addr \<Rightarrow> heap \<Rightarrow> heap option" where
  "updateLayout f h =
     (if length (Children f h) = 0 then Some h
      else
        (case ComputedBounds f h of
           None \<Rightarrow> None
         | Some (bnds, h1) \<Rightarrow>
             (let bm = boxModel (h1 f);
                  contentX = X bnds + Left (Padding bm);
                  contentY = Y bnds + Top (Padding bm);
                  contentWidth = Width bnds - Left (Padding bm) - Right (Padding bm);
                  contentHeight = Height bnds - Top (Padding bm) - Bottom (Padding bm)
              in if flexDirection (h1 f) = FlexRow
                 then Some (layoutRow f contentY contentHeight contentX (Children f h1) h1)
                 else Some (layoutColumn f contentX contentWidth contentY (Children f h1) h1))))"




section \<open>Event handlers\<close>

text \<open>
  A handler call reaches the method body of the receiver's dynamic type:
  \<^verbatim>\<open>FlexContainer\<close> and \<^verbatim>\<open>Button\<close> declare all three handlers, \<^verbatim>\<open>Checkbox\<close> declares
  \<^verbatim>\<open>HandleMouseDown\<close> and \<^verbatim>\<open>HandleMouseMove\<close>, and every other call reaches the method
  of \<^verbatim>\<open>BaseElement\<close>. The loop \<^verbatim>\<open>for i := len(children) - 1; i >= 0; i--\<close> that each
  container-like handler runs is the \<open>dispatch\<close> function applied to the reversed
  children (no modelled handler changes a children sequence). The first argument
  bounds the depth of nested handler calls: a children graph with a cycle makes the Go
  handlers recurse without end, and a call that needs more depth than it is given
  yields \<open>None\<close>. The \<^verbatim>\<open>Printf\<close> calls of \<^verbatim>\<open>BaseElement\<close> are left out.
\<close>

definition modify :: "addr \<Rightarrow> (obj \<Rightarrow> obj) \<Rightarrow> world \<Rightarrow> world" where
  "modify a f w = w\<lparr>heap := (heap w)(a := f (heap w a))\<rparr>"

definition invoke :: "event \<Rightarrow> world \<Rightarrow> world" where
  "invoke e w = w\<lparr>trace := trace w @ [e]\<rparr>"

fun HandleMouseDown :: "nat \<Rightarrow> Element \<Rightarrow> gint \<Rightarrow> gint \<Rightarrow> world \<Rightarrow> (bool \<times> world) option"
  and dispatchMouseDown ::
    "nat \<Rightarrow> Element list \<Rightarrow> gint \<Rightarrow> gint \<Rightarrow> world \<Rightarrow> (bool \<times> world) option"
where
  "HandleMouseDown 0 e x y w = None"
| "HandleMouseDown (Suc n) (Element t b) x y w =
     (case t of
        TFlexContainer \<Rightarrow>
          (case ComputedBounds b (heap w) of
             None \<Rightarrow> None
           | Some (bnds, h1) \<Rightarrow>
               (let w1 = w\<lparr>heap := h1\<rparr> in
                if PointInRect \<lparr>ptX = x, ptY = y\<rparr> bnds then
                  (case dispatchMouseDown n (rev (Children b (heap w1))) x y w1 of
                     None \<Rightarrow> None
                   | Some (r, w2) \<Rightarrow> Some (True, w2))
                else Some (False, w1)))
      | TButton \<Rightarrow>
          if disabled (heap w b) then Some (False, w)
          else
            (case ComputedBounds b (heap w) of
               None \<Rightarrow> None
             | Some (bnds, h1) \<Rightarrow>
                 (let w1 = w\<lparr>heap := h1\<rparr> in
                  if PointInRect \<lparr>ptX = x, ptY = y\<rparr> bnds then
                    (let w2 = modify b (\<lambda>ob. ob\<lparr>buttonPressed := True\<rparr>) w1 in
                     case dispatchMouseDown n (rev (Children b (heap w2))) x y w2 of
                       None \<Rightarrow> None
                     | Some (r, w3) \<Rightarrow> Some (True, w3))
                  else Some (False, w1)))
      | TCheckbox \<Rightarrow>
          (case ComputedBounds b (heap w) of
             None \<Rightarrow> None
           | Some (bnds, h1) \<Rightarrow>
               (let w1 = w\<lparr>heap := h1\<rparr> in
                if PointInRect \<lparr>ptX = x, ptY = y\<rparr> bnds then
                  (let w2 = modify b (\<lambda>ob. ob\<lparr>checked := \<not> checked ob\<rparr>) w1;
                       w3 = (case checkedChanged (heap w2 b) of
                               None \<Rightarrow> w2
                             | Some k \<Rightarrow> invoke (CheckedChanged k (checked (heap w2 b))) w2)
                   in Some (True, w3))
                else Some (False, w1)))
      | _ \<Rightarrow>
          if IsMouseOver b x y (heap w) then
            (let w1 = modify b (\<lambda>ob. ob\<lparr>pressed := True\<rparr>) w in
             case dispatchMouseDown n (rev (Children b (heap w1))) x y w1 of
               None \<Rightarrow> None
             | Some (r, w2) \<Rightarrow> Some (True, w2))
          else Some (False, w))"
| "dispatchMouseDown n [] x y w = Some (False, w)"
| "dispatchMouseDown n (child # rest) x y w =
     (case HandleMouseDown n child x y w of
        None \<Rightarrow> None
      | Some (r, w1) \<Rightarrow> if r then Some (True, w1) else dispatchMouseDown n rest x y w1)"

fun HandleMouseUp :: "nat \<Rightarrow> Element \<Rightarrow> gint \<Rightarrow> gint \<Rightarrow> world \<Rightarrow> (bool \<times> world) option"
  and dispatchMouseUp ::
    "nat \<Rightarrow> Element list \<Rightarrow> gint \<Rightarrow> gint \<Rightarrow> world \<Rightarrow> (bool \<times> world) option"
where
  "HandleMouseUp 0 e x y w = None"
| "HandleMouseUp (Suc n) (Element t b) x y w =
     (case t of
        TFlexContainer \<Rightarrow> dispatchMouseUp n (rev (Children b (heap w))) x y w
      | TButton \<Rightarrow>
          (let wasPressed = buttonPressed (heap w b);
               w1 = modify b (\<lambda>ob. ob\<lparr>buttonPressed := False\<rparr>) w
           in if disabled (heap w1 b) then Some (False, w1)
              else
                (case ComputedBounds b (heap w1) of
                   None \<Rightarrow> None
                 | Some (bnds, h2) \<Rightarrow>
                     (let w2 = w1\<lparr>heap := h2\<rparr> in
                      if wasPressed \<and> PointInRect \<lparr>ptX = x, ptY = y\<rparr> bnds then
                        Some (True, (case onClick (heap w2 b) of
                                       None \<Rightarrow> w2
                                     | Some k \<Rightarrow> invoke (Click k) w2))
                      else dispatchMouseUp n (rev (Children b (heap w2))) x y w2)))
      | _ \<Rightarrow>
          (let wasPressed = pressed (heap w b);
               w1 = modify b (\<lambda>ob. ob\<lparr>pressed := False\<rparr>) w
           in if wasPressed \<and> IsMouseOver b x y (heap w1) then
                (case dispatchMouseUp n (rev (Children b (heap w1))) x y w1 of
                   None \<Rightarrow> None
                 | Some (r, w2) \<Rightarrow> Some (True, w2))
              else dispatchMouseUp n (rev (Children b (heap w1))) x y w1))"
| "dispatchMouseUp n [] x y w = Some (False, w)"
| "dispatchMouseUp n (child # rest) x y w =
     (case HandleMouseUp n child x y w of
        None \<Rightarrow> None
      | Some (r, w1) \<Rightarrow> if r then Some (True, w1) else dispatchMouseUp n rest x y w1)"

fun HandleMouseMove :: "nat \<Rightarrow> Element \<Rightarrow> gint \<Rightarrow> gint \<Rightarrow> world \<Rightarrow> (bool \<times> world) option"
  and dispatchMouseMove ::
    "nat \<Rightarrow> Element list \<Rightarrow> gint \<Rightarrow> gint \<Rightarrow> world \<Rightarrow> (bool \<times> world) option"
where
  "HandleMouseMove 0 e x y w = None"
| "HandleMouseMove (Suc n) (Element t b) x y w =
     (case t of
        TFlexContainer \<Rightarrow> dispatchMouseMove n (rev (Children b (heap w))) x y w
      | TButton \<Rightarrow>
          (let wasHovered = hovered (heap w b) in
           case ComputedBounds b (heap w) of
             None \<Rightarrow> None
           | Some (bnds, h1) \<Rightarrow>
               (let w1 = modify b (\<lambda>ob. ob\<lparr>hovered := PointInRect \<lparr>ptX = x, ptY = y\<rparr> bnds\<rparr>)
                           (w\<lparr>heap := h1\<rparr>)
                in case dispatchMouseMove n (rev (Children b (heap w1))) x y w1 of
                     None \<Rightarrow> None
                   | Some (r, w2) \<Rightarrow>
                       if r then Some (True, w2)
                       else Some (hovered (heap w2 b) \<or> wasHovered \<noteq> hovered (heap w2 b), w2)))
      | TCheckbox \<Rightarrow> Some (False, w)
      | _ \<Rightarrow>
          (let w1 = modify b (\<lambda>ob. ob\<lparr>mouseOver := IsMouseOver b x y (heap w)\<rparr>) w in
           case dispatchMouseMove n (rev (Children b (heap w1))) x y w1 of
             None \<Rightarrow> None
           | Some (r, w2) \<Rightarrow>
               if r then Some (True, w2) else Some (mouseOver (heap w2 b), w2)))"
| "dispatchMouseMove n [] x y w = Some (False, w)"
| "dispatchMouseMove n (child # rest) x y w =
     (case HandleMouseMove n child x y w of
        None \<Rightarrow> None
      | Some (r, w1) \<Rightarrow> if r then Some (True, w1) else dispatchMouseMove n rest x y w1)"

section \<open>Reactive state\<close>

text \<open>
  \<^verbatim>\<open>State\<close> holds a value and the watchers in subscription order. A watcher is a
  closure of the application that receives the value; what it does is an effect on a
  state \<open>'e\<close> outside the cell. \<open>notify\<close> is the loop of \<^verbatim>\<open>Update\<close>.
\<close>

record ('v, 'e) State =
  stateValue :: 'v
  watchers :: "('v \<Rightarrow> 'e \<Rightarrow> 'e) list"




definition Value :: "('v, 'e) State \<Rightarrow> 'v" where
  "Value s = stateValue s"




section \<open>Objects as the constructors build them\<close>

text \<open>
  The field values that \<^verbatim>\<open>NewBaseElement\<close>, \<^verbatim>\<open>NewNode\<close>, \<^verbatim>\<open>NewFlexContainer\<close>,
  \<^verbatim>\<open>NewButton\<close> and \<^verbatim>\<open>NewCheckbox\<close> store.
\<close>

definition newObject :: obj where
  "newObject =
     \<lparr>bounds = \<lparr>X = 0, Y = 0, Width = 0, Height = 0\<rparr>,
      parent = None,
      children = [],
      mouseOver = False,
      pressed = False,
      positionType = PositionRelative,
      boxModel = \<lparr>Margin = \<lparr>Top = 0, Right = 0, Bottom = 0, Left = 0\<rparr>,
                  Padding = \<lparr>Top = 0, Right = 0, Bottom = 0, Left = 0\<rparr>\<rparr>,
      relativePos = \<lparr>ptX = 0, ptY = 0\<rparr>,
      flexDirection = FlexRow,
      alignItems = AlignStart,
      spacing = 5,
      onClick = None,
      hovered = False,
      buttonPressed = False,
      disabled = False,
      checked = False,
      checkedChanged = None\<rparr>"

definition emptyHeap :: heap where
  "emptyHeap = (\<lambda>a. newObject)"

section \<open>What ComputedBounds reads\<close>

text \<open>
  \<open>geometry\<close> collects the fields that \<^verbatim>\<open>ComputedBounds\<close> reads in an object, and
  \<open>dep h d a\<close> says that the call on \<open>d\<close> in heap \<open>h\<close> reads the object at \<open>a\<close>:
  the element itself, its parent unless the element is fixed, and what the call on a
  \<^verbatim>\<open>NodeElement\<close> parent reads.
\<close>

definition geometry :: "obj \<Rightarrow> Rect \<times> Element option \<times> PositionType \<times> BoxModel \<times> Point" where
  "geometry ob = (bounds ob, parent ob, positionType ob, boxModel ob, relativePos ob)"

inductive dep :: "heap \<Rightarrow> addr \<Rightarrow> addr \<Rightarrow> bool" for h :: heap where
  self: "dep h d d"
| direct: "positionType (h d) \<noteq> PositionFixed \<Longrightarrow> parent (h d) = Some e \<Longrightarrow>
           dep h d (addr_of e)"
| up: "positionType (h d) \<noteq> PositionFixed \<Longrightarrow> parent (h d) = Some e \<Longrightarrow> isNodeElement e \<Longrightarrow>
       dep h (addr_of e) a \<Longrightarrow> dep h d a"

section \<open>Dispatch order\<close>

text \<open>
  \<open>allDecline n cs x y w\<close>: the elements of \<open>cs\<close>, asked one after the other in the
  order of the list, each return false from \<^verbatim>\<open>HandleMouseDown\<close>; the result is the world
  that the last of them leaves.
\<close>

fun allDecline :: "nat \<Rightarrow> Element list \<Rightarrow> gint \<Rightarrow> gint \<Rightarrow> world \<Rightarrow> world option" where
  "allDecline n [] x y w = Some w"
| "allDecline n (c # cs) x y w =
     (case HandleMouseDown n c x y w of
        None \<Rightarrow> None
      | Some (r, w1) \<Rightarrow> if r then None else allDecline n cs x y w1)"

section \<open>The two layout loops as one\<close>

text \<open>
  \<open>rowRect\<close> and \<open>columnRect\<close> are the rectangles that one iteration of the row loop
  and of the column loop stores, as functions of the container object, the cursor and
  the child's bounds. \<open>layoutLoop\<close> is the loop with the rectangle and the extent
  along the main axis as parameters; both loops of \<^verbatim>\<open>updateLayout\<close> are instances of it,
  which is proved below. \<open>placement\<close> collects what the proofs use of the two
  rectangles: the extent along the main axis is kept, placing twice is placing once,
  and the container's own bounds do not matter.
\<close>

definition rowRect :: "gint \<Rightarrow> gint \<Rightarrow> obj \<Rightarrow> gint \<Rightarrow> Rect \<Rightarrow> Rect" where
  "rowRect contentY contentHeight fo x childBounds =
     (let childHeight = Height childBounds;
          yh = (case alignItems fo of
                  AlignStart \<Rightarrow> (contentY, childHeight)
                | AlignCenter \<Rightarrow> (contentY + quo (contentHeight - childHeight) 2, childHeight)
                | AlignEnd \<Rightarrow> (contentY + contentHeight - childHeight, childHeight)
                | AlignStretch \<Rightarrow> (contentY, contentHeight))
      in \<lparr>X = x, Y = fst yh, Width = Width childBounds, Height = snd yh\<rparr>)"

definition columnRect :: "gint \<Rightarrow> gint \<Rightarrow> obj \<Rightarrow> gint \<Rightarrow> Rect \<Rightarrow> Rect" where
  "columnRect contentX contentWidth fo y childBounds =
     (let childWidth = Width childBounds;
          xw = (case alignItems fo of
                  AlignStart \<Rightarrow> (contentX, childWidth)
                | AlignCenter \<Rightarrow> (contentX + quo (contentWidth - childWidth) 2, childWidth)
                | AlignEnd \<Rightarrow> (contentX + contentWidth - childWidth, childWidth)
                | AlignStretch \<Rightarrow> (contentX, contentWidth))
      in \<lparr>X = fst xw, Y = y, Width = snd xw, Height = Height childBounds\<rparr>)"

fun layoutLoop ::
  "(obj \<Rightarrow> gint \<Rightarrow> Rect \<Rightarrow> Rect) \<Rightarrow> (Rect \<Rightarrow> gint) \<Rightarrow> addr \<Rightarrow> gint \<Rightarrow> Element list \<Rightarrow> heap \<Rightarrow> heap"
where
  "layoutLoop place extent f cur [] h = h"
| "layoutLoop place extent f cur (child # rest) h =
     (let childBounds = Bounds (addr_of child) h;
          h' = SetBounds (addr_of child) (place (h f) cur childBounds) h
      in layoutLoop place extent f (cur + extent childBounds + spacing (h' f)) rest h')"

definition placement :: "(obj \<Rightarrow> gint \<Rightarrow> Rect \<Rightarrow> Rect) \<Rightarrow> (Rect \<Rightarrow> gint) \<Rightarrow> bool" where
  "placement place extent \<longleftrightarrow>
     (\<forall>fo x r. extent (place fo x r) = extent r) \<and>
     (\<forall>fo x x' r. place fo x' (place fo x r) = place fo x' r) \<and>
     (\<forall>fo r s x. place (fo\<lparr>bounds := r\<rparr>) x s = place fo x s)"

text \<open>The distance that the cursor moves over the children \<open>cs\<close>.\<close>

definition advance :: "(Rect \<Rightarrow> gint) \<Rightarrow> addr \<Rightarrow> heap \<Rightarrow> Element list \<Rightarrow> gint" where
  "advance extent f h cs = sum_list (map (\<lambda>d. extent (bounds (h (addr_of d))) + spacing (h f)) cs)"

text \<open>
  The heap that \<^verbatim>\<open>updateLayout\<close> produces once the container has children and its
  computed bounds are \<open>bnds\<close>.
\<close>

definition layoutPass :: "addr \<Rightarrow> Rect \<Rightarrow> heap \<Rightarrow> heap" where
  "layoutPass f bnds h =
     (let bm = boxModel (h f);
          contentX = X bnds + Left (Padding bm);
          contentY = Y bnds + Top (Padding bm);
          contentWidth = Width bnds - Left (Padding bm) - Right (Padding bm);
          contentHeight = Height bnds - Top (Padding bm) - Bottom (Padding bm)
      in if flexDirection (h f) = FlexRow
         then layoutLoop (rowRect contentY contentHeight) Width f contentX (Children f h) h
         else layoutLoop (columnRect contentX contentWidth) Height f contentY (Children f h) h)"

section \<open>Example trees\<close>

text \<open>
  A node at address 2 with local bounds \<open>(7, 9, 50, 40)\<close>, relative offset \<open>(3, 4)\<close>
  and margin \<open>2\<close>, whose parent reference is the \<^verbatim>\<open>*Node\<close> at address 0 with bounds
  \<open>(10, 20, 300, 200)\<close> and padding \<open>5\<close>.
\<close>

definition nodeInNode :: heap where
  "nodeInNode = emptyHeap
     (0 := newObject
        \<lparr>bounds := \<lparr>X = 10, Y = 20, Width = 300, Height = 200\<rparr>,
         boxModel := \<lparr>Margin = \<lparr>Top = 0, Right = 0, Bottom = 0, Left = 0\<rparr>,
                      Padding = \<lparr>Top = 5, Right = 5, Bottom = 5, Left = 5\<rparr>\<rparr>\<rparr>,
      2 := newObject
        \<lparr>bounds := \<lparr>X = 7, Y = 9, Width = 50, Height = 40\<rparr>,
         parent := Some (Element TNode 0),
         relativePos := \<lparr>ptX = 3, ptY = 4\<rparr>,
         boxModel := \<lparr>Margin = \<lparr>Top = 2, Right = 2, Bottom = 2, Left = 2\<rparr>,
                      Padding = \<lparr>Top = 0, Right = 0, Bottom = 0, Left = 0\<rparr>\<rparr>\<rparr>)"

text \<open>
  A flex container at address 0 with bounds \<open>(100, 100, 300, 200)\<close> whose only child is
  the button at address 2. The button's parent reference is the one that \<^verbatim>\<open>AddChild\<close>
  stores, its bounds are \<open>(100, 100, 100, 50)\<close> and its click callback is number 7.
\<close>

definition buttonInContainer :: world where
  "buttonInContainer =
     \<lparr>heap = emptyHeap
        (0 := newObject
           \<lparr>bounds := \<lparr>X = 100, Y = 100, Width = 300, Height = 200\<rparr>,
            children := [Element TButton 2]\<rparr>,
         2 := newObject
           \<lparr>bounds := \<lparr>X = 100, Y = 100, Width = 100, Height = 50\<rparr>,
            parent := Some (Element TBaseElement 0),
            onClick := Some 7\<rparr>),
      trace = []\<rparr>"

text \<open>A checkbox at address 3 with bounds \<open>(10, 10, 20, 20)\<close> and a change callback.\<close>

definition checkboxAlone :: world where
  "checkboxAlone =
     \<lparr>heap = emptyHeap
        (3 := newObject
           \<lparr>bounds := \<lparr>X = 10, Y = 10, Width = 20, Height = 20\<rparr>,
            checkedChanged := Some 4\<rparr>),
      trace = []\<rparr>"

text \<open>A parent at address 0 whose children are a button and a checkbox.\<close>

definition twoChildren :: heap where
  "twoChildren = emptyHeap
     (0 := newObject\<lparr>children := [Element TButton 2, Element TCheckbox 3]\<rparr>)"

text \<open>A plain \<^verbatim>\<open>BaseElement\<close> at address 2 over which the mouse was at the last move.\<close>

definition hoveredBase :: world where
  "hoveredBase =
     \<lparr>heap = emptyHeap
        (2 := newObject
           \<lparr>bounds := \<lparr>X = 100, Y = 100, Width = 100, Height = 50\<rparr>,
            mouseOver := True\<rparr>),
      trace = []\<rparr>"

text \<open>The button of \<open>buttonInContainer\<close> after the mouse has entered and after it has left.\<close>

definition hoverIn :: world where
  "hoverIn = modify 2 (\<lambda>ob. ob\<lparr>hovered := True\<rparr>) buttonInContainer"

definition hoverOut :: world where
  "hoverOut = modify 2 (\<lambda>ob. ob\<lparr>hovered := False\<rparr>) hoverIn"


definition twoButtons :: heap where
  "twoButtons = emptyHeap
     (0 := newObject
        \<lparr>bounds := \<lparr>X = 0, Y = 0, Width = 400, Height = 300\<rparr>,
         spacing := 10,
         children := [Element TButton 2, Element TButton 3]\<rparr>,
      2 := newObject
        \<lparr>bounds := \<lparr>X = 50, Y = 60, Width = 100, Height = 30\<rparr>,
         parent := Some (Element TBaseElement 0)\<rparr>,
      3 := newObject
        \<lparr>bounds := \<lparr>X = 7, Y = 8, Width = 120, Height = 40\<rparr>,
         parent := Some (Element TBaseElement 0)\<rparr>)"


text \<open>
  A flex container at address 0 with bounds \<open>(0, 0, 400, 300)\<close> and three checkboxes
  added in the order 2, 3, 4. Checkboxes 2 and 3 lie on top of each other at
  \<open>(10, 10, 20, 20)\<close>, checkbox 4 lies at \<open>(200, 200, 20, 20)\<close>.
\<close>

definition stackedBoxes :: world where
  "stackedBoxes =
     \<lparr>heap = emptyHeap
        (0 := newObject
           \<lparr>bounds := \<lparr>X = 0, Y = 0, Width = 400, Height = 300\<rparr>,
            children := [Element TCheckbox 2, Element TCheckbox 3, Element TCheckbox 4]\<rparr>,
         2 := newObject
           \<lparr>bounds := \<lparr>X = 10, Y = 10, Width = 20, Height = 20\<rparr>,
            parent := Some (Element TBaseElement 0),
            relativePos := \<lparr>ptX = 10, ptY = 10\<rparr>\<rparr>,
         3 := newObject
           \<lparr>bounds := \<lparr>X = 10, Y = 10, Width = 20, Height = 20\<rparr>,
            parent := Some (Element TBaseElement 0),
            relativePos := \<lparr>ptX = 10, ptY = 10\<rparr>\<rparr>,
         4 := newObject
           \<lparr>bounds := \<lparr>X = 200, Y = 200, Width = 20, Height = 20\<rparr>,
            parent := Some (Element TBaseElement 0),
            relativePos := \<lparr>ptX = 200, ptY = 200\<rparr>\<rparr>),
      trace = []\<rparr>"

section \<open>Properties of ComputedBounds\<close>

lemmas ComputedBounds_induct = ComputedBounds.raw_induct [rotated, consumes 1, case_names step]

lemma ComputedBounds_snd: "ComputedBounds d h = Some res \<Longrightarrow> snd res = h"
proof (induct rule: ComputedBounds_induct)
  case (step CB d h res)
  then show ?case
    by (auto simp: Let_def bind_eq_Some_conv split: if_splits option.splits)
qed

lemma ComputedBounds_heap: "ComputedBounds d h = Some (r, h') \<Longrightarrow> h' = h"
  using ComputedBounds_snd [of d h "(r, h')"] by simp

text \<open>An element without a parent, or a fixed one, is resolved without recursion.\<close>

lemma ComputedBounds_root:
  "positionType (h d) = PositionFixed \<or> Parent d h = None \<Longrightarrow>
   ComputedBounds d h = Some (applyMargin (h d) (Bounds d h), h)"
  by (subst ComputedBounds.simps) (auto simp: Let_def)

subsection \<open>The example tree\<close>

lemma nodeInNode_0:
  "nodeInNode 0 = newObject
     \<lparr>bounds := \<lparr>X = 10, Y = 20, Width = 300, Height = 200\<rparr>,
      boxModel := \<lparr>Margin = \<lparr>Top = 0, Right = 0, Bottom = 0, Left = 0\<rparr>,
                   Padding = \<lparr>Top = 5, Right = 5, Bottom = 5, Left = 5\<rparr>\<rparr>\<rparr>"
  by (simp add: nodeInNode_def)

lemma nodeInNode_2:
  "nodeInNode 2 = newObject
     \<lparr>bounds := \<lparr>X = 7, Y = 9, Width = 50, Height = 40\<rparr>,
      parent := Some (Element TNode 0),
      relativePos := \<lparr>ptX = 3, ptY = 4\<rparr>,
      boxModel := \<lparr>Margin = \<lparr>Top = 2, Right = 2, Bottom = 2, Left = 2\<rparr>,
                   Padding = \<lparr>Top = 0, Right = 0, Bottom = 0, Left = 0\<rparr>\<rparr>\<rparr>"
  by (simp add: nodeInNode_def)

lemma nodeInNode_parent_bounds:
  "ComputedBounds 0 nodeInNode =
     Some (\<lparr>X = 10, Y = 20, Width = 300, Height = 200\<rparr>, nodeInNode)"
  by (simp add: ComputedBounds.simps nodeInNode_0 newObject_def Parent_def Bounds_def
      applyMargin_def)

lemma nodeInNode_child_bounds:
  "ComputedBounds 2 nodeInNode =
     Some (\<lparr>X = 20, Y = 31, Width = 50, Height = 40\<rparr>, nodeInNode)"
  by (subst ComputedBounds.simps)
     (simp add: nodeInNode_parent_bounds nodeInNode_0 nodeInNode_2 newObject_def Parent_def
       Bounds_def applyMargin_def positioned_def contentArea_def)

subsection \<open>Position of an element under a NodeElement parent\<close>

text \<open>
  Claim C1, as the code has it. For an element whose position type is relative or
  absolute and whose parent reference is a \<^verbatim>\<open>NodeElement\<close>, \<^verbatim>\<open>ComputedBounds\<close> returns
  the rectangle whose x is the x of the parent's computed bounds plus the parent's
  left padding plus the x of the element's relative position (the field that
  \<^verbatim>\<open>SetRelativePosition\<close> sets) plus the element's left margin, whose y is the same
  with top padding and top margin, and whose width and height are those of the
  element's local bounds. The call leaves the heap as it was.
\<close>

theorem C1_ComputedBounds_under_node_parent:
  assumes "positionType (h d) = PositionRelative \<or> positionType (h d) = PositionAbsolute"
    and "Parent d h = Some domParent"
    and "isNodeElement domParent"
    and "ComputedBounds (addr_of domParent) h = Some (parentBounds, h')"
  shows "ComputedBounds d h =
           Some (\<lparr>X = X parentBounds + Left (Padding (boxModel (h (addr_of domParent))))
                       + ptX (relativePos (h d)) + Left (Margin (boxModel (h d))),
                  Y = Y parentBounds + Top (Padding (boxModel (h (addr_of domParent))))
                       + ptY (relativePos (h d)) + Top (Margin (boxModel (h d))),
                  Width = Width (bounds (h d)),
                  Height = Height (bounds (h d))\<rparr>, h)"
proof -
  have same: "h' = h"
    using assms(4) by (rule ComputedBounds_heap)
  show ?thesis
    using assms unfolding same
    by (subst ComputedBounds.simps)
       (auto simp: Let_def Bounds_def applyMargin_def positioned_def contentArea_def)
qed

theorem C1_ComputedBounds_under_node_parent_witness:
  "(positionType (nodeInNode 2) = PositionRelative
      \<or> positionType (nodeInNode 2) = PositionAbsolute) \<and>
   Parent 2 nodeInNode = Some (Element TNode 0) \<and>
   isNodeElement (Element TNode 0) \<and>
   ComputedBounds 0 nodeInNode =
     Some (\<lparr>X = 10, Y = 20, Width = 300, Height = 200\<rparr>, nodeInNode) \<and>
   ComputedBounds 2 nodeInNode =
     Some (\<lparr>X = 10 + 5 + 3 + 2, Y = 20 + 5 + 4 + 2, Width = 50, Height = 40\<rparr>, nodeInNode)"
proof -
  have rel: "positionType (nodeInNode 2) = PositionRelative
               \<or> positionType (nodeInNode 2) = PositionAbsolute"
    by (simp add: nodeInNode_2 newObject_def)
  have par: "Parent 2 nodeInNode = Some (Element TNode 0)"
    by (simp add: Parent_def nodeInNode_2 newObject_def)
  have nd: "isNodeElement (Element TNode 0)"
    by simp
  have "ComputedBounds (addr_of (Element TNode 0)) nodeInNode =
          Some (\<lparr>X = 10, Y = 20, Width = 300, Height = 200\<rparr>, nodeInNode)"
    by (simp add: nodeInNode_parent_bounds)
  from C1_ComputedBounds_under_node_parent [OF rel par nd this]
  show ?thesis
    using rel par nodeInNode_parent_bounds
    by (simp add: nodeInNode_0 nodeInNode_2 newObject_def)
qed

text \<open>
  The claim as it was written takes the x of the local bounds (what \<^verbatim>\<open>SetBounds\<close>
  stores) as the offset. In the example tree the local bounds of the child start at
  \<open>x = 7\<close> and its relative position is \<open>3\<close>: the computed x is \<open>20\<close>, not
  \<open>10 + 5 + 7 + 2\<close>.
\<close>

theorem C1_local_bounds_offset_counterexample:
  "positionType (nodeInNode 2) = PositionRelative \<and>
   Parent 2 nodeInNode = Some (Element TNode 0) \<and>
   ComputedBounds 0 nodeInNode =
     Some (\<lparr>X = 10, Y = 20, Width = 300, Height = 200\<rparr>, nodeInNode) \<and>
   ComputedBounds 2 nodeInNode =
     Some (\<lparr>X = 20, Y = 31, Width = 50, Height = 40\<rparr>, nodeInNode) \<and>
   (20 :: gint) \<noteq> 10 + Left (Padding (boxModel (nodeInNode 0))) + X (bounds (nodeInNode 2))
                      + Left (Margin (boxModel (nodeInNode 2)))"
  by (simp add: nodeInNode_parent_bounds nodeInNode_child_bounds Parent_def nodeInNode_0
      nodeInNode_2 newObject_def)

subsection \<open>ComputedBounds reads and never writes\<close>

text \<open>
  Claim C8. A call of \<^verbatim>\<open>ComputedBounds\<close> that returns hands back the heap it was given,
  and the call that follows it returns the same rectangle and again the same heap.
\<close>

theorem C8_ComputedBounds_repeatable:
  "ComputedBounds d h = Some (r, h') \<Longrightarrow> h' = h \<and> ComputedBounds d h' = Some (r, h')"
  using ComputedBounds_heap by blast

theorem C8_ComputedBounds_repeatable_witness:
  "ComputedBounds 2 nodeInNode =
     Some (\<lparr>X = 20, Y = 31, Width = 50, Height = 40\<rparr>, nodeInNode) \<and>
   nodeInNode = nodeInNode \<and>
   ComputedBounds 2 nodeInNode =
     Some (\<lparr>X = 20, Y = 31, Width = 50, Height = 40\<rparr>, nodeInNode)"
  using C8_ComputedBounds_repeatable [OF nodeInNode_child_bounds] nodeInNode_child_bounds
  by simp

section \<open>Frame property of ComputedBounds\<close>

text \<open>
  A heap that agrees with \<open>h\<close> on the geometry of every object that the call reads
  gives the same rectangle.
\<close>

lemma geometryD:
  "geometry a = geometry b \<Longrightarrow>
     bounds a = bounds b \<and> parent a = parent b \<and> positionType a = positionType b \<and>
     boxModel a = boxModel b \<and> relativePos a = relativePos b"
  by (simp add: geometry_def)

lemma applyMargin_geometry: "geometry a = geometry b \<Longrightarrow> applyMargin a = applyMargin b"
  by (auto simp: applyMargin_def fun_eq_iff dest: geometryD)

lemma positioned_geometry: "geometry a = geometry b \<Longrightarrow> positioned a = positioned b"
  by (auto simp: positioned_def fun_eq_iff dest!: geometryD)

lemma ComputedBounds_frame_aux:
  "ComputedBounds d h = Some res \<Longrightarrow>
   snd res = h \<and> (\<forall>h'. (\<forall>a. dep h d a \<longrightarrow> geometry (h' a) = geometry (h a)) \<longrightarrow>
                      ComputedBounds d h' = Some (fst res, h'))"
proof (induct rule: ComputedBounds_induct)
  case (step CB d h res)
  show ?case
  proof (cases "positionType (h d) \<noteq> PositionFixed \<and> Parent d h \<noteq> None")
    case False
    then have res: "res = (applyMargin (h d) (Bounds d h), h)"
      using step(2) by (auto simp: Let_def)
    show ?thesis
    proof (intro conjI allI impI)
      show "snd res = h" by (simp add: res)
    next
      fix h' assume agree: "\<forall>a. dep h d a \<longrightarrow> geometry (h' a) = geometry (h a)"
      then have g: "geometry (h' d) = geometry (h d)" by (simp add: dep.self)
      then have "positionType (h' d) = PositionFixed \<or> Parent d h' = None"
        using False geometryD [OF g] by (simp add: Parent_def)
      then have "ComputedBounds d h' = Some (applyMargin (h' d) (Bounds d h'), h')"
        by (rule ComputedBounds_root)
      then show "ComputedBounds d h' = Some (fst res, h')"
        using geometryD [OF g] by (simp add: res applyMargin_geometry [OF g] Bounds_def)
    qed
  next
    case True
    then obtain e where par: "parent (h d) = Some e" and nf: "positionType (h d) \<noteq> PositionFixed"
      by (auto simp: Parent_def)
    show ?thesis
    proof (cases "isNodeElement e")
      case False
      then have res: "res = (applyMargin (h d) (positioned (h d) (Bounds (addr_of e) h) (Bounds d h)), h)"
        using step(2) par nf by (auto simp: Let_def Parent_def)
      show ?thesis
      proof (intro conjI allI impI)
        show "snd res = h" by (simp add: res)
      next
        fix h' assume agree: "\<forall>a. dep h d a \<longrightarrow> geometry (h' a) = geometry (h a)"
        then have g: "geometry (h' d) = geometry (h d)" by (simp add: dep.self)
        have ge: "geometry (h' (addr_of e)) = geometry (h (addr_of e))"
          using agree dep.direct [of h d e, OF nf par] by simp
        have "ComputedBounds d h' =
                Some (applyMargin (h' d) (positioned (h' d) (Bounds (addr_of e) h') (Bounds d h')), h')"
          using geometryD [OF g] par nf False
          by (subst ComputedBounds.simps) (simp add: Let_def Parent_def)
        then show "ComputedBounds d h' = Some (fst res, h')"
          using geometryD [OF g] geometryD [OF ge]
          by (simp add: res applyMargin_geometry [OF g] positioned_geometry [OF g] Bounds_def)
      qed
    next
      case node: True
      from step(2) par nf node obtain pb h1 where
        cb: "CB (addr_of e) h = Some (pb, h1)" and
        res: "res = (applyMargin (h1 d) (positioned (h1 d)
                      (contentArea (boxModel (h1 (addr_of e))) pb) (Bounds d h)), h1)"
        by (auto simp: Let_def Parent_def bind_eq_Some_conv)
      from step(1) [OF cb] have h1: "h1 = h"
        and ih: "\<And>h'. (\<forall>a. dep h (addr_of e) a \<longrightarrow> geometry (h' a) = geometry (h a)) \<Longrightarrow>
                   ComputedBounds (addr_of e) h' = Some (pb, h')"
        by auto
      show ?thesis
      proof (intro conjI allI impI)
        show "snd res = h" by (simp add: res h1)
      next
        fix h' assume agree: "\<forall>a. dep h d a \<longrightarrow> geometry (h' a) = geometry (h a)"
        then have g: "geometry (h' d) = geometry (h d)" by (simp add: dep.self)
        have ge: "geometry (h' (addr_of e)) = geometry (h (addr_of e))"
          using agree dep.direct [of h d e, OF nf par] by simp
        have "\<forall>a. dep h (addr_of e) a \<longrightarrow> geometry (h' a) = geometry (h a)"
          using agree dep.up [of h d e, OF nf par node] by blast
        then have p': "ComputedBounds (addr_of e) h' = Some (pb, h')" by (rule ih)
        have "ComputedBounds d h' =
                Some (applyMargin (h' d) (positioned (h' d)
                      (contentArea (boxModel (h' (addr_of e))) pb) (Bounds d h')), h')"
          using geometryD [OF g] par nf node p'
          by (subst ComputedBounds.simps) (simp add: Let_def Parent_def)
        then show "ComputedBounds d h' = Some (fst res, h')"
          using geometryD [OF g] geometryD [OF ge]
          by (simp add: res h1 applyMargin_geometry [OF g] positioned_geometry [OF g] Bounds_def)
      qed
    qed
  qed
qed

lemma ComputedBounds_frame:
  "ComputedBounds d h = Some (r, h1) \<Longrightarrow>
   (\<And>a. dep h d a \<Longrightarrow> geometry (h' a) = geometry (h a)) \<Longrightarrow>
   ComputedBounds d h' = Some (r, h')"
  using ComputedBounds_frame_aux [of d h "(r, h1)"] by simp

section \<open>Worlds\<close>

lemma heap_same [simp]: "w\<lparr>heap := heap w\<rparr> = w"
  by simp

lemma modify_heap: "heap (modify a f w) = (heap w)(a := f (heap w a))"
  by (simp add: modify_def)

lemma modify_trace [simp]: "trace (modify a f w) = trace w"
  by (simp add: modify_def)

lemma invoke_heap [simp]: "heap (invoke e w) = heap w"
  by (simp add: invoke_def)

lemma invoke_trace [simp]: "trace (invoke e w) = trace w @ [e]"
  by (simp add: invoke_def)

text \<open>Writing a field that is not part of the geometry leaves every computed rectangle.\<close>

lemma ComputedBounds_modify:
  assumes "ComputedBounds d (heap w) = Some (r, h1)"
    and "\<And>ob. geometry (f ob) = geometry ob"
  shows "ComputedBounds d (heap (modify a f w)) = Some (r, heap (modify a f w))"
  using assms(1)
  by (rule ComputedBounds_frame) (simp add: modify_heap assms(2))

section \<open>AddChild followed by RemoveChild\<close>

lemma removeFirst_fresh: "c \<notin> set s \<Longrightarrow> removeFirst c (s @ [c]) = s"
  by (induction s) auto

lemma Children_Remove_Add:
  "Children p (RemoveChild p c (AddChild p c h)) = removeFirst c (Children p h @ [c])"
  by (simp add: Children_def RemoveChild_def AddChild_def SetParent_def)

text \<open>
  Claim C9, as the code has it. For every parent \<open>p\<close> and every element \<open>c\<close> that is
  not already among the children of \<open>p\<close>, \<^verbatim>\<open>AddChild(p, c)\<close> followed by
  \<^verbatim>\<open>RemoveChild(p, c)\<close> leaves \<^verbatim>\<open>p.Children()\<close> as it was before.
\<close>

theorem C9_AddChild_RemoveChild_restores:
  "c \<notin> set (Children p h) \<Longrightarrow>
   Children p (RemoveChild p c (AddChild p c h)) = Children p h"
  by (simp add: Children_Remove_Add removeFirst_fresh)

theorem C9_AddChild_RemoveChild_restores_witness:
  "Element TNode 5 \<notin> set (Children 0 twoChildren) \<and>
   Children 0 (RemoveChild 0 (Element TNode 5) (AddChild 0 (Element TNode 5) twoChildren))
     = [Element TButton 2, Element TCheckbox 3]"
proof -
  have fresh: "Element TNode 5 \<notin> set (Children 0 twoChildren)"
    by (simp add: Children_def twoChildren_def)
  have "Children 0 twoChildren = [Element TButton 2, Element TCheckbox 3]"
    by (simp add: Children_def twoChildren_def)
  with C9_AddChild_RemoveChild_restores [OF fresh] fresh show ?thesis
    by simp
qed

text \<open>
  The claim as it was written speaks of every element \<open>c\<close>. \<^verbatim>\<open>RemoveChild\<close> removes the
  first occurrence: when \<open>c\<close> is already the first of two children, adding it again
  and removing it leaves the children in the other order.
\<close>

theorem C9_child_already_present_counterexample:
  "Children 0 twoChildren = [Element TButton 2, Element TCheckbox 3] \<and>
   Children 0 (RemoveChild 0 (Element TButton 2) (AddChild 0 (Element TButton 2) twoChildren))
     = [Element TCheckbox 3, Element TButton 2]"
  by (simp add: Children_def RemoveChild_def AddChild_def SetParent_def twoChildren_def)

section \<open>Checkbox\<close>

lemma checkboxAlone_3:
  "heap checkboxAlone 3 =
     newObject\<lparr>bounds := \<lparr>X = 10, Y = 10, Width = 20, Height = 20\<rparr>, checkedChanged := Some 4\<rparr>"
  by (simp add: checkboxAlone_def)

lemma checkboxAlone_bounds:
  "ComputedBounds 3 (heap checkboxAlone) =
     Some (\<lparr>X = 10, Y = 10, Width = 20, Height = 20\<rparr>, heap checkboxAlone)"
  by (simp add: ComputedBounds.simps checkboxAlone_3 newObject_def Parent_def Bounds_def
      applyMargin_def)

text \<open>
  Claim C10. When the point lies in the checkbox's computed bounds, \<^verbatim>\<open>HandleMouseDown\<close>
  flips \<open>checked\<close> at once, calls the change callback (when one is registered) with
  the new value, and returns true; no mouse-up takes part. When the point lies outside,
  it returns false and the world is the one it was given.
\<close>

theorem C10_Checkbox_HandleMouseDown:
  assumes "ComputedBounds c (heap w) = Some (bnds, h1)"
  shows "HandleMouseDown (Suc n) (Element TCheckbox c) x y w =
           (if PointInRect \<lparr>ptX = x, ptY = y\<rparr> bnds
            then Some (True,
                   (let w2 = modify c (\<lambda>ob. ob\<lparr>checked := \<not> checked ob\<rparr>) w in
                    case checkedChanged (heap w c) of
                      None \<Rightarrow> w2
                    | Some k \<Rightarrow> invoke (CheckedChanged k (\<not> checked (heap w c))) w2))
            else Some (False, w))"
proof -
  have "h1 = heap w" using assms by (rule ComputedBounds_heap)
  then show ?thesis
    using assms by (simp add: Let_def modify_heap split: option.split)
qed

theorem C10_Checkbox_HandleMouseDown_witness:
  "ComputedBounds 3 (heap checkboxAlone) =
     Some (\<lparr>X = 10, Y = 10, Width = 20, Height = 20\<rparr>, heap checkboxAlone) \<and>
   HandleMouseDown (Suc 0) (Element TCheckbox 3) 15 15 checkboxAlone =
     Some (True, invoke (CheckedChanged 4 True)
                   (modify 3 (\<lambda>ob. ob\<lparr>checked := \<not> checked ob\<rparr>) checkboxAlone)) \<and>
   checked (heap (modify 3 (\<lambda>ob. ob\<lparr>checked := \<not> checked ob\<rparr>) checkboxAlone) 3) \<and>
   HandleMouseDown (Suc 0) (Element TCheckbox 3) 50 50 checkboxAlone = Some (False, checkboxAlone)"
proof -
  have inside: "PointInRect \<lparr>ptX = 15, ptY = 15\<rparr> \<lparr>X = 10, Y = 10, Width = 20, Height = 20\<rparr>"
    by (simp add: PointInRect_def)
  have outside: "\<not> PointInRect \<lparr>ptX = 50, ptY = 50\<rparr> \<lparr>X = 10, Y = 10, Width = 20, Height = 20\<rparr>"
    by (simp add: PointInRect_def)
  have a: "HandleMouseDown (Suc 0) (Element TCheckbox 3) 15 15 checkboxAlone =
     Some (True, invoke (CheckedChanged 4 True)
                   (modify 3 (\<lambda>ob. ob\<lparr>checked := \<not> checked ob\<rparr>) checkboxAlone))"
    unfolding C10_Checkbox_HandleMouseDown [OF checkboxAlone_bounds]
    using inside by (simp add: checkboxAlone_3 newObject_def)
  have b: "HandleMouseDown (Suc 0) (Element TCheckbox 3) 50 50 checkboxAlone =
     Some (False, checkboxAlone)"
    unfolding C10_Checkbox_HandleMouseDown [OF checkboxAlone_bounds]
    using outside by simp
  have c: "checked (heap (modify 3 (\<lambda>ob. ob\<lparr>checked := \<not> checked ob\<rparr>) checkboxAlone) 3)"
    by (simp add: modify_heap checkboxAlone_3 newObject_def)
  show ?thesis
    by (intro conjI checkboxAlone_bounds a b c)
qed
section \<open>Button\<close>

subsection \<open>The example button\<close>

lemma buttonInContainer_0:
  "heap buttonInContainer 0 =
     newObject\<lparr>bounds := \<lparr>X = 100, Y = 100, Width = 300, Height = 200\<rparr>,
               children := [Element TButton 2]\<rparr>"
  by (simp add: buttonInContainer_def)

lemma buttonInContainer_2:
  "heap buttonInContainer 2 =
     newObject\<lparr>bounds := \<lparr>X = 100, Y = 100, Width = 100, Height = 50\<rparr>,
               parent := Some (Element TBaseElement 0),
               onClick := Some 7\<rparr>"
  by (simp add: buttonInContainer_def)

lemma buttonInContainer_trace: "trace buttonInContainer = []"
  by (simp add: buttonInContainer_def)

lemma buttonInContainer_bounds:
  "ComputedBounds 2 (heap buttonInContainer) =
     Some (\<lparr>X = 100, Y = 100, Width = 100, Height = 50\<rparr>, heap buttonInContainer)"
  by (subst ComputedBounds.simps)
     (simp add: buttonInContainer_0 buttonInContainer_2 newObject_def Parent_def Bounds_def
       applyMargin_def positioned_def)

subsection \<open>Press and release\<close>

text \<open>
  Claim C3. For an enabled button without children whose computed bounds are the
  rectangle from \<open>(100, 100)\<close> to \<open>(200, 150)\<close> and whose click callback is \<open>k\<close>:
  \<^verbatim>\<open>HandleMouseDown(150, 125)\<close> returns true and sets the pressed flag; from there
  \<^verbatim>\<open>HandleMouseUp(150, 125)\<close> returns true and the trace grows by exactly one call of
  \<open>k\<close>, while \<^verbatim>\<open>HandleMouseUp(10, 10)\<close> calls nothing and still clears the pressed flag.
\<close>

theorem C3_Button_press_and_release:
  assumes cb: "ComputedBounds b (heap w) = Some (\<lparr>X = 100, Y = 100, Width = 100, Height = 50\<rparr>, h1)"
    and en: "\<not> disabled (heap w b)"
    and leaf: "Children b (heap w) = []"
    and cl: "onClick (heap w b) = Some k"
  shows "let w1 = modify b (\<lambda>ob. ob\<lparr>buttonPressed := True\<rparr>) w;
             w2 = modify b (\<lambda>ob. ob\<lparr>buttonPressed := False\<rparr>) w1
         in HandleMouseDown (Suc n) (Element TButton b) 150 125 w = Some (True, w1) \<and>
            buttonPressed (heap w1 b) \<and>
            HandleMouseUp (Suc n) (Element TButton b) 150 125 w1 = Some (True, invoke (Click k) w2) \<and>
            trace (invoke (Click k) w2) = trace w @ [Click k] \<and>
            HandleMouseUp (Suc n) (Element TButton b) 10 10 w1 = Some (False, w2) \<and>
            trace w2 = trace w \<and>
            \<not> buttonPressed (heap w2 b)"
proof -
  define w1 where "w1 = modify b (\<lambda>ob. ob\<lparr>buttonPressed := True\<rparr>) w"
  define w2 where "w2 = modify b (\<lambda>ob. ob\<lparr>buttonPressed := False\<rparr>) w1"
  have h1: "h1 = heap w" using cb by (rule ComputedBounds_heap)
  have inside: "PointInRect \<lparr>ptX = 150, ptY = 125\<rparr> \<lparr>X = 100, Y = 100, Width = 100, Height = 50\<rparr>"
    by (simp add: PointInRect_def)
  have outside: "\<not> PointInRect \<lparr>ptX = 10, ptY = 10\<rparr> \<lparr>X = 100, Y = 100, Width = 100, Height = 50\<rparr>"
    by (simp add: PointInRect_def)
  have cb1: "ComputedBounds b (heap w1) = Some (\<lparr>X = 100, Y = 100, Width = 100, Height = 50\<rparr>, heap w1)"
    unfolding w1_def using cb by (rule ComputedBounds_modify) (simp add: geometry_def)
  have cb2: "ComputedBounds b (heap w2) = Some (\<lparr>X = 100, Y = 100, Width = 100, Height = 50\<rparr>, heap w2)"
    unfolding w2_def using cb1 by (rule ComputedBounds_modify) (simp add: geometry_def)
  have down: "HandleMouseDown (Suc n) (Element TButton b) 150 125 w = Some (True, w1)"
    using cb en leaf inside by (simp add: h1 Let_def w1_def modify_heap Children_def)
  have p1: "buttonPressed (heap w1 b)"
    by (simp add: w1_def modify_heap)
  have fields: "\<not> disabled (heap w2 b)" "Children b (heap w2) = []" "onClick (heap w2 b) = Some k"
    using en leaf cl by (simp_all add: w2_def w1_def modify_heap Children_def)
  have up_in: "HandleMouseUp (Suc n) (Element TButton b) 150 125 w1 = Some (True, invoke (Click k) w2)"
    using cb2 fields inside p1 by (simp add: Let_def flip: w2_def)
  have up_out: "HandleMouseUp (Suc n) (Element TButton b) 10 10 w1 = Some (False, w2)"
    using cb2 fields outside p1 by (simp add: Let_def flip: w2_def)
  have np: "\<not> buttonPressed (heap w2 b)"
    by (simp add: w2_def modify_heap)
  have t1: "trace (invoke (Click k) w2) = trace w @ [Click k]"
    by (simp add: w2_def w1_def)
  have t2: "trace w2 = trace w"
    by (simp add: w2_def w1_def)
  show ?thesis
    unfolding Let_def
    unfolding w1_def [symmetric]
    unfolding w2_def [symmetric]
    by (intro conjI down p1 up_in t1 up_out t2 np)
qed

theorem C3_Button_press_and_release_witness:
  "ComputedBounds 2 (heap buttonInContainer) =
     Some (\<lparr>X = 100, Y = 100, Width = 100, Height = 50\<rparr>, heap buttonInContainer) \<and>
   \<not> disabled (heap buttonInContainer 2) \<and>
   Children 2 (heap buttonInContainer) = [] \<and>
   onClick (heap buttonInContainer 2) = Some 7 \<and>
   (let w1 = modify 2 (\<lambda>ob. ob\<lparr>buttonPressed := True\<rparr>) buttonInContainer;
        w2 = modify 2 (\<lambda>ob. ob\<lparr>buttonPressed := False\<rparr>) w1
    in HandleMouseDown (Suc 0) (Element TButton 2) 150 125 buttonInContainer = Some (True, w1) \<and>
       buttonPressed (heap w1 2) \<and>
       HandleMouseUp (Suc 0) (Element TButton 2) 150 125 w1 = Some (True, invoke (Click 7) w2) \<and>
       trace (invoke (Click 7) w2) = [Click 7] \<and>
       HandleMouseUp (Suc 0) (Element TButton 2) 10 10 w1 = Some (False, w2) \<and>
       trace w2 = [] \<and>
       \<not> buttonPressed (heap w2 2))"
proof -
  have en: "\<not> disabled (heap buttonInContainer 2)"
    by (simp add: buttonInContainer_2 newObject_def)
  have leaf: "Children 2 (heap buttonInContainer) = []"
    by (simp add: Children_def buttonInContainer_2 newObject_def)
  have cl: "onClick (heap buttonInContainer 2) = Some 7"
    by (simp add: buttonInContainer_2 newObject_def)
  note run = C3_Button_press_and_release [OF buttonInContainer_bounds en leaf cl, of 0]
  show ?thesis
    using run buttonInContainer_bounds en leaf cl
    by (simp only: Let_def buttonInContainer_trace append_Nil simp_thms)
qed

subsection \<open>Hover\<close>

text \<open>
  Claim C6, as the code has it. For a button whose \<^verbatim>\<open>ComputedBounds\<close> returns,
  \<^verbatim>\<open>HandleMouseMove\<close> returns true whenever the button is hovered after the call or was
  hovered before it. For a button without children the result is exactly that
  disjunction and the hovered flag becomes the hit test of the point: entering
  returns true, a further move inside returns true, leaving returns true once more,
  and the next move outside returns false.
\<close>

theorem C6_Button_HandleMouseMove:
  assumes cb: "ComputedBounds b (heap w) = Some (bnds, h1)"
  shows "(HandleMouseMove (Suc n) (Element TButton b) x y w = Some (r, w') \<longrightarrow>
            hovered (heap w' b) \<or> hovered (heap w b) \<longrightarrow> r) \<and>
         (Children b (heap w) = [] \<longrightarrow>
            HandleMouseMove (Suc n) (Element TButton b) x y w =
              Some (PointInRect \<lparr>ptX = x, ptY = y\<rparr> bnds \<or> hovered (heap w b),
                    modify b (\<lambda>ob. ob\<lparr>hovered := PointInRect \<lparr>ptX = x, ptY = y\<rparr> bnds\<rparr>) w))"
proof -
  have h1: "h1 = heap w" using cb by (rule ComputedBounds_heap)
  show ?thesis
    using cb
    by (auto simp: h1 Let_def modify_heap Children_def split: option.splits if_splits)
qed

lemma hoverIn_bounds:
  "ComputedBounds 2 (heap hoverIn) =
     Some (\<lparr>X = 100, Y = 100, Width = 100, Height = 50\<rparr>, heap hoverIn)"
  unfolding hoverIn_def using buttonInContainer_bounds
  by (rule ComputedBounds_modify) (simp add: geometry_def)

lemma hoverOut_bounds:
  "ComputedBounds 2 (heap hoverOut) =
     Some (\<lparr>X = 100, Y = 100, Width = 100, Height = 50\<rparr>, heap hoverOut)"
  unfolding hoverOut_def using hoverIn_bounds
  by (rule ComputedBounds_modify) (simp add: geometry_def)

lemma inside_150_125:
  "PointInRect \<lparr>ptX = 150, ptY = 125\<rparr> \<lparr>X = 100, Y = 100, Width = 100, Height = 50\<rparr>"
  by (simp add: PointInRect_def)

lemma inside_160_130:
  "PointInRect \<lparr>ptX = 160, ptY = 130\<rparr> \<lparr>X = 100, Y = 100, Width = 100, Height = 50\<rparr>"
  by (simp add: PointInRect_def)

lemma outside_10_10:
  "\<not> PointInRect \<lparr>ptX = 10, ptY = 10\<rparr> \<lparr>X = 100, Y = 100, Width = 100, Height = 50\<rparr>"
  by (simp add: PointInRect_def)

lemma modify_same_field:
  "modify 2 (\<lambda>ob. ob\<lparr>hovered := True\<rparr>) hoverIn = hoverIn"
  by (simp add: hoverIn_def modify_def)

theorem C6_Button_HandleMouseMove_witness:
  "ComputedBounds 2 (heap buttonInContainer) =
     Some (\<lparr>X = 100, Y = 100, Width = 100, Height = 50\<rparr>, heap buttonInContainer) \<and>
   Children 2 (heap buttonInContainer) = [] \<and>
   \<not> hovered (heap buttonInContainer 2) \<and>
   HandleMouseMove (Suc 0) (Element TButton 2) 150 125 buttonInContainer = Some (True, hoverIn) \<and>
   hovered (heap hoverIn 2) \<and>
   HandleMouseMove (Suc 0) (Element TButton 2) 160 130 hoverIn = Some (True, hoverIn) \<and>
   HandleMouseMove (Suc 0) (Element TButton 2) 10 10 hoverIn = Some (True, hoverOut) \<and>
   \<not> hovered (heap hoverOut 2) \<and>
   HandleMouseMove (Suc 0) (Element TButton 2) 10 10 hoverOut = Some (False, hoverOut)"
proof -
  have leaf0: "Children 2 (heap buttonInContainer) = []"
    by (simp add: Children_def buttonInContainer_2 newObject_def)
  have leaf1: "Children 2 (heap hoverIn) = []"
    by (simp add: Children_def hoverIn_def modify_heap buttonInContainer_2 newObject_def)
  have leaf2: "Children 2 (heap hoverOut) = []"
    by (simp add: Children_def hoverOut_def hoverIn_def modify_heap buttonInContainer_2 newObject_def)
  have nh0: "\<not> hovered (heap buttonInContainer 2)"
    by (simp add: buttonInContainer_2 newObject_def)
  have h1: "hovered (heap hoverIn 2)"
    by (simp add: hoverIn_def modify_heap)
  have nh2: "\<not> hovered (heap hoverOut 2)"
    by (simp add: hoverOut_def modify_heap)
  have m1: "HandleMouseMove (Suc 0) (Element TButton 2) 150 125 buttonInContainer = Some (True, hoverIn)"
    using C6_Button_HandleMouseMove [OF buttonInContainer_bounds, THEN conjunct2, rule_format, OF leaf0, of 0 150 125]
    by (simp only: inside_150_125 simp_thms hoverIn_def)
  have m2: "HandleMouseMove (Suc 0) (Element TButton 2) 160 130 hoverIn = Some (True, hoverIn)"
    using C6_Button_HandleMouseMove [OF hoverIn_bounds, THEN conjunct2, rule_format, OF leaf1, of 0 160 130]
    by (simp only: inside_160_130 simp_thms modify_same_field)
  have m3: "HandleMouseMove (Suc 0) (Element TButton 2) 10 10 hoverIn = Some (True, hoverOut)"
    using C6_Button_HandleMouseMove [OF hoverIn_bounds, THEN conjunct2, rule_format, OF leaf1, of 0 10 10] h1
    by (simp only: outside_10_10 simp_thms hoverOut_def)
  have same: "modify 2 (\<lambda>ob. ob\<lparr>hovered := False\<rparr>) hoverOut = hoverOut"
    by (simp add: hoverOut_def modify_def)
  have m4: "HandleMouseMove (Suc 0) (Element TButton 2) 10 10 hoverOut = Some (False, hoverOut)"
    using C6_Button_HandleMouseMove [OF hoverOut_bounds, THEN conjunct2, rule_format, OF leaf2, of 0 10 10] nh2
    by (simp only: outside_10_10 simp_thms same)
  show ?thesis
    by (intro conjI buttonInContainer_bounds leaf0 nh0 m1 h1 m2 m3 nh2 m4)
qed

lemma hoveredBase_2:
  "heap hoveredBase 2 =
     newObject\<lparr>bounds := \<lparr>X = 100, Y = 100, Width = 100, Height = 50\<rparr>, mouseOver := True\<rparr>"
  by (simp add: hoveredBase_def)

text \<open>
  The claim as it was written covers every element that tracks hover state.
  \<^verbatim>\<open>BaseElement.HandleMouseMove\<close> (which \<^verbatim>\<open>Node\<close> inherits) returns \<^verbatim>\<open>b.mouseOver\<close>, the
  state after the call: a move that leaves the bounds returns false although the
  element was hovered immediately before.
\<close>

theorem C6_BaseElement_leave_counterexample:
  "mouseOver (heap hoveredBase 2) \<and>
   HandleMouseMove (Suc 0) (Element TBaseElement 2) 10 10 hoveredBase =
     Some (False, modify 2 (\<lambda>ob. ob\<lparr>mouseOver := False\<rparr>) hoveredBase)"
  by (simp add: hoveredBase_2 newObject_def Let_def IsMouseOver_def PointInRect_def
      Children_def modify_heap)

section \<open>Reactive state\<close>






section \<open>Dispatch of HandleMouseDown in a FlexContainer\<close>

lemma stackedBoxes_0:
  "heap stackedBoxes 0 = newObject
           \<lparr>bounds := \<lparr>X = 0, Y = 0, Width = 400, Height = 300\<rparr>,
            children := [Element TCheckbox 2, Element TCheckbox 3, Element TCheckbox 4]\<rparr>"
  by (simp add: stackedBoxes_def)

lemma stackedBoxes_3:
  "heap stackedBoxes 3 = newObject
           \<lparr>bounds := \<lparr>X = 10, Y = 10, Width = 20, Height = 20\<rparr>,
            parent := Some (Element TBaseElement 0),
            relativePos := \<lparr>ptX = 10, ptY = 10\<rparr>\<rparr>"
  by (simp add: stackedBoxes_def)

lemma stackedBoxes_4:
  "heap stackedBoxes 4 = newObject
           \<lparr>bounds := \<lparr>X = 200, Y = 200, Width = 20, Height = 20\<rparr>,
            parent := Some (Element TBaseElement 0),
            relativePos := \<lparr>ptX = 200, ptY = 200\<rparr>\<rparr>"
  by (simp add: stackedBoxes_def)

lemma stackedBoxes_bounds_0:
  "ComputedBounds 0 (heap stackedBoxes) =
     Some (\<lparr>X = 0, Y = 0, Width = 400, Height = 300\<rparr>, heap stackedBoxes)"
  by (simp add: ComputedBounds.simps stackedBoxes_0 newObject_def Parent_def Bounds_def
      applyMargin_def)

lemma stackedBoxes_bounds_3:
  "ComputedBounds 3 (heap stackedBoxes) =
     Some (\<lparr>X = 10, Y = 10, Width = 20, Height = 20\<rparr>, heap stackedBoxes)"
  by (subst ComputedBounds.simps)
     (simp add: stackedBoxes_0 stackedBoxes_3 newObject_def Parent_def Bounds_def
       applyMargin_def positioned_def)

lemma stackedBoxes_bounds_4:
  "ComputedBounds 4 (heap stackedBoxes) =
     Some (\<lparr>X = 200, Y = 200, Width = 20, Height = 20\<rparr>, heap stackedBoxes)"
  by (subst ComputedBounds.simps)
     (simp add: stackedBoxes_0 stackedBoxes_4 newObject_def Parent_def Bounds_def
       applyMargin_def positioned_def)

lemma dispatchMouseDown_declined:
  "allDecline n cs x y w = Some w1 \<Longrightarrow>
   dispatchMouseDown n (cs @ rest) x y w = dispatchMouseDown n rest x y w1"
  by (induction cs arbitrary: w) (auto split: option.splits if_splits)

text \<open>
  Claim C4. Let the point lie in the computed bounds of a flex container whose
  children are \<open>earlier @ c # later\<close> in insertion order. If the children added after
  \<open>c\<close>, asked from the most recently added backwards, all return false, and \<open>c\<close>
  then returns true, the container returns true with the world that \<open>c\<close> left: the
  children added before \<open>c\<close> are not asked, whatever they are.
\<close>

theorem C4_FlexContainer_dispatch_order:
  assumes cb: "ComputedBounds f (heap w) = Some (bnds, h1)"
    and hit: "PointInRect \<lparr>ptX = x, ptY = y\<rparr> bnds"
    and kids: "Children f (heap w) = earlier @ c # later"
    and decl: "allDecline n (rev later) x y w = Some w1"
    and acc: "HandleMouseDown n c x y w1 = Some (True, w2)"
  shows "HandleMouseDown (Suc n) (Element TFlexContainer f) x y w = Some (True, w2)"
proof -
  have h1: "h1 = heap w" using cb by (rule ComputedBounds_heap)
  have "dispatchMouseDown n (rev (Children f (heap w))) x y w
          = dispatchMouseDown n (c # rev earlier) x y w1"
    using dispatchMouseDown_declined [OF decl, of "c # rev earlier"] by (simp add: kids)
  also have "\<dots> = Some (True, w2)"
    using acc by simp
  finally show ?thesis
    using cb hit by (simp add: h1 Let_def)
qed

theorem C4_FlexContainer_dispatch_order_witness:
  "ComputedBounds 0 (heap stackedBoxes) =
     Some (\<lparr>X = 0, Y = 0, Width = 400, Height = 300\<rparr>, heap stackedBoxes) \<and>
   PointInRect \<lparr>ptX = 15, ptY = 15\<rparr> \<lparr>X = 0, Y = 0, Width = 400, Height = 300\<rparr> \<and>
   Children 0 (heap stackedBoxes) = [Element TCheckbox 2] @ Element TCheckbox 3 # [Element TCheckbox 4] \<and>
   allDecline (Suc 0) (rev [Element TCheckbox 4]) 15 15 stackedBoxes = Some stackedBoxes \<and>
   HandleMouseDown (Suc 0) (Element TCheckbox 3) 15 15 stackedBoxes =
     Some (True, modify 3 (\<lambda>ob. ob\<lparr>checked := \<not> checked ob\<rparr>) stackedBoxes) \<and>
   HandleMouseDown (Suc (Suc 0)) (Element TFlexContainer 0) 15 15 stackedBoxes =
     Some (True, modify 3 (\<lambda>ob. ob\<lparr>checked := \<not> checked ob\<rparr>) stackedBoxes) \<and>
   checked (heap (modify 3 (\<lambda>ob. ob\<lparr>checked := \<not> checked ob\<rparr>) stackedBoxes) 3) \<and>
   \<not> checked (heap (modify 3 (\<lambda>ob. ob\<lparr>checked := \<not> checked ob\<rparr>) stackedBoxes) 2)"
proof -
  have hit: "PointInRect \<lparr>ptX = 15, ptY = 15\<rparr> \<lparr>X = 0, Y = 0, Width = 400, Height = 300\<rparr>"
    by (simp add: PointInRect_def word_sle_eq word_sless_alt)
  have kids: "Children 0 (heap stackedBoxes) =
                [Element TCheckbox 2] @ Element TCheckbox 3 # [Element TCheckbox 4]"
    by (simp add: Children_def stackedBoxes_0 newObject_def)
  have decl: "allDecline (Suc 0) (rev [Element TCheckbox 4]) 15 15 stackedBoxes = Some stackedBoxes"
    by (simp add: stackedBoxes_bounds_4 PointInRect_def)
  have acc: "HandleMouseDown (Suc 0) (Element TCheckbox 3) 15 15 stackedBoxes =
               Some (True, modify 3 (\<lambda>ob. ob\<lparr>checked := \<not> checked ob\<rparr>) stackedBoxes)"
    by (simp add: stackedBoxes_bounds_3 PointInRect_def Let_def modify_heap stackedBoxes_3
        newObject_def)
  have c3: "checked (heap (modify 3 (\<lambda>ob. ob\<lparr>checked := \<not> checked ob\<rparr>) stackedBoxes) 3)"
    by (simp add: modify_heap stackedBoxes_3 newObject_def)
  have c2: "\<not> checked (heap (modify 3 (\<lambda>ob. ob\<lparr>checked := \<not> checked ob\<rparr>) stackedBoxes) 2)"
    by (simp add: modify_heap stackedBoxes_def emptyHeap_def newObject_def)
  show ?thesis
    by (intro conjI stackedBoxes_bounds_0 hit kids decl acc c3 c2
        C4_FlexContainer_dispatch_order [OF stackedBoxes_bounds_0 hit kids decl acc])
qed

section \<open>Layout loops\<close>

lemma layoutRow_loop:
  "layoutRow f contentY contentHeight x cs h =
     layoutLoop (rowRect contentY contentHeight) Width f x cs h"
  by (induction cs arbitrary: x h) (simp_all add: Let_def rowRect_def)

lemma layoutColumn_loop:
  "layoutColumn f contentX contentWidth y cs h =
     layoutLoop (columnRect contentX contentWidth) Height f y cs h"
  by (induction cs arbitrary: y h) (simp_all add: Let_def columnRect_def)

lemma placement_row: "placement (rowRect contentY contentHeight) Width"
  by (auto simp: placement_def rowRect_def Let_def split: Alignment.splits)



lemma layoutLoop_frame:
  "a \<notin> addr_of ` set cs \<Longrightarrow> layoutLoop place extent f cur cs h a = h a"
  by (induction cs arbitrary: cur h) (simp_all add: Let_def SetBounds_def)


lemma placement_extent: "placement place extent \<Longrightarrow> extent (place fo x r) = extent r"
  by (simp add: placement_def)

lemma placement_absorb: "placement place extent \<Longrightarrow> place fo x' (place fo x r) = place fo x' r"
  by (simp add: placement_def)

lemma placement_container:
  assumes "placement place extent" and "\<And>r. a\<lparr>bounds := r\<rparr> = b\<lparr>bounds := r\<rparr>"
  shows "place a x s = place b x s"
proof -
  have "place a x s = place (a\<lparr>bounds := bounds a\<rparr>) x s" by simp
  also have "\<dots> = place (b\<lparr>bounds := bounds a\<rparr>) x s" by (simp only: assms(2))
  also have "\<dots> = place b x s" using assms(1) by (simp add: placement_def)
  finally show ?thesis .
qed

lemma other_fields_spacing:
  assumes "\<And>r. a\<lparr>bounds := r\<rparr> = b\<lparr>bounds := r\<rparr>"
  shows "spacing a = spacing b"
proof -
  have "spacing (a\<lparr>bounds := bounds a\<rparr>) = spacing (b\<lparr>bounds := bounds a\<rparr>)"
    by (simp only: assms)
  then show ?thesis by simp
qed

lemma layoutLoop_absorbed:
  assumes pl: "placement place extent"
  shows "extent (bounds (layoutLoop place extent f cur cs h a)) = extent (bounds (h a)) \<and>
         place (h f) x (bounds (layoutLoop place extent f cur cs h a)) = place (h f) x (bounds (h a))"
proof (induction cs arbitrary: cur h)
  case Nil
  show ?case by simp
next
  case (Cons c cs)
  define h1 where "h1 = SetBounds (addr_of c) (place (h f) cur (Bounds (addr_of c) h)) h"
  define cur1 where "cur1 = cur + extent (Bounds (addr_of c) h) + spacing (h1 f)"
  have step: "layoutLoop place extent f cur (c # cs) h = layoutLoop place extent f cur1 cs h1"
    by (simp add: Let_def h1_def cur1_def)
  have nb: "\<And>r. (h1 f)\<lparr>bounds := r\<rparr> = (h f)\<lparr>bounds := r\<rparr>"
    by (simp add: h1_def SetBounds_def)
  have pf: "\<And>x s. place (h1 f) x s = place (h f) x s"
    using pl nb by (rule placement_container)
  have e1: "extent (bounds (h1 a)) = extent (bounds (h a))"
    by (simp add: h1_def SetBounds_def Bounds_def placement_extent [OF pl])
  have p1: "place (h f) x (bounds (h1 a)) = place (h f) x (bounds (h a))"
    by (simp add: h1_def SetBounds_def Bounds_def placement_absorb [OF pl])
  from Cons.IH [of cur1 h1] have
    "extent (bounds (layoutLoop place extent f cur1 cs h1 a)) = extent (bounds (h1 a))" and
    "place (h f) x (bounds (layoutLoop place extent f cur1 cs h1 a)) = place (h f) x (bounds (h1 a))"
    by (simp_all add: pf)
  then show ?case
    by (simp only: step e1 p1)
qed



lemma layoutLoop_append:
  assumes pl: "placement place extent"
  shows "layoutLoop place extent f cur (xs @ ys) h =
           layoutLoop place extent f (cur + advance extent f h xs) ys
             (layoutLoop place extent f cur xs h)"
proof (induction xs arbitrary: cur h)
  case Nil
  show ?case by (simp add: advance_def)
next
  case (Cons c xs)
  define h1 where "h1 = SetBounds (addr_of c) (place (h f) cur (Bounds (addr_of c) h)) h"
  define cur1 where "cur1 = cur + extent (Bounds (addr_of c) h) + spacing (h1 f)"
  have sp: "spacing (h1 f) = spacing (h f)"
    by (rule other_fields_spacing) (simp add: h1_def SetBounds_def)
  have ex: "\<And>a. extent (bounds (h1 a)) = extent (bounds (h a))"
    by (simp add: h1_def SetBounds_def Bounds_def placement_extent [OF pl])
  have "(\<lambda>d. extent (bounds (h1 (addr_of d))) + spacing (h1 f))
          = (\<lambda>d. extent (bounds (h (addr_of d))) + spacing (h f))"
    by (rule ext) (simp only: ex sp)
  then have adv: "advance extent f h1 xs = advance extent f h xs"
    by (simp only: advance_def)
  have "cur1 + advance extent f h1 xs = cur + advance extent f h (c # xs)"
    unfolding cur1_def adv sp by (simp add: advance_def Bounds_def add.assoc)
  with Cons.IH [of cur1 h1] show ?case
    by (simp add: Let_def h1_def [symmetric] cur1_def [symmetric])
qed



lemma updateLayout_pass:
  "updateLayout f h =
     (if Children f h = [] then Some h
      else map_option (\<lambda>res. layoutPass f (fst res) h) (ComputedBounds f h))"
proof (cases "ComputedBounds f h")
  case None
  then show ?thesis by (simp add: updateLayout_def)
next
  case (Some res)
  then have "snd res = h" by (rule ComputedBounds_snd)
  with Some show ?thesis
    by (cases res)
       (simp add: updateLayout_def layoutPass_def Let_def layoutRow_loop layoutColumn_loop)
qed







section \<open>The layout pass\<close>


subsection \<open>Example rows\<close>

lemma twoButtons_0:
  "twoButtons 0 = newObject
        \<lparr>bounds := \<lparr>X = 0, Y = 0, Width = 400, Height = 300\<rparr>,
         spacing := 10,
         children := [Element TButton 2, Element TButton 3]\<rparr>"
  by (simp add: twoButtons_def)

lemma twoButtons_2:
  "twoButtons 2 = newObject
        \<lparr>bounds := \<lparr>X = 50, Y = 60, Width = 100, Height = 30\<rparr>,
         parent := Some (Element TBaseElement 0)\<rparr>"
  by (simp add: twoButtons_def)

lemma twoButtons_3:
  "twoButtons 3 = newObject
        \<lparr>bounds := \<lparr>X = 7, Y = 8, Width = 120, Height = 40\<rparr>,
         parent := Some (Element TBaseElement 0)\<rparr>"
  by (simp add: twoButtons_def)

lemma twoButtons_bounds:
  "ComputedBounds 0 twoButtons = Some (\<lparr>X = 0, Y = 0, Width = 400, Height = 300\<rparr>, twoButtons)"
  by (simp add: ComputedBounds.simps twoButtons_0 newObject_def Parent_def Bounds_def
      applyMargin_def)







subsection \<open>Row placement\<close>

text \<open>
  Claim C5. In row direction, when the computed bounds of the container are \<open>bnds\<close>,
  the layout pass returns a heap in which the child at position \<open>i\<close> has as x the
  cursor: the x of the content box (\<open>X bnds\<close> plus the left padding) plus, for each
  child before it, that child's width and the spacing; and its width is the one it had.
  A child that occurs again later in the sequence is placed again at that occurrence,
  so the position is read at the last occurrence. With widths 100 and 120, spacing 10 and
  the content box at \<open>x = 0\<close> the children end at \<open>x = 0\<close> and \<open>x = 110\<close>.
\<close>

theorem C5_row_cursor:
  assumes row: "flexDirection (h f) = FlexRow"
    and cb: "ComputedBounds f h = Some (bnds, h1)"
    and i: "i < length (Children f h)"
    and last: "addr_of (Children f h ! i) \<notin> addr_of ` set (drop (Suc i) (Children f h))"
  shows "\<exists>h'. updateLayout f h = Some h' \<and>
           X (bounds (h' (addr_of (Children f h ! i)))) =
             X bnds + Left (Padding (boxModel (h f)))
               + sum_list (map (\<lambda>d. Width (bounds (h (addr_of d))) + spacing (h f))
                            (take i (Children f h))) \<and>
           Width (bounds (h' (addr_of (Children f h ! i)))) =
             Width (bounds (h (addr_of (Children f h ! i))))"
proof -
  define cs where "cs = Children f h"
  define c where "c = cs ! i"
  define cY where "cY = Y bnds + Top (Padding (boxModel (h f)))"
  define cH where "cH = Height bnds - Top (Padding (boxModel (h f))) - Bottom (Padding (boxModel (h f)))"
  define cX where "cX = X bnds + Left (Padding (boxModel (h f)))"
  define hp where "hp = layoutLoop (rowRect cY cH) Width f cX (take i cs) h"
  define cur where "cur = cX + advance Width f h (take i cs)"
  note pl = placement_row [of cY cH]
  have ne: "Children f h \<noteq> []" using i by auto
  have split: "cs = take i cs @ c # drop (Suc i) cs"
    using i by (simp add: cs_def c_def id_take_nth_drop)
  have run: "updateLayout f h = Some (layoutLoop (rowRect cY cH) Width f cX cs h)"
    using ne cb row
    by (simp add: updateLayout_pass layoutPass_def Let_def cs_def cY_def cH_def cX_def)
  define hp1 where
    "hp1 = SetBounds (addr_of c) (rowRect cY cH (hp f) cur (Bounds (addr_of c) hp)) hp"
  have "layoutLoop (rowRect cY cH) Width f cX cs h
          = layoutLoop (rowRect cY cH) Width f cur (c # drop (Suc i) cs) hp"
    by (subst split) (simp add: layoutLoop_append [OF pl] cur_def hp_def)
  also have "\<dots> = layoutLoop (rowRect cY cH) Width f
                      (cur + Width (Bounds (addr_of c) hp) + spacing (hp1 f)) (drop (Suc i) cs) hp1"
    by (simp add: Let_def hp1_def)
  finally have "layoutLoop (rowRect cY cH) Width f cX cs h (addr_of c) = hp1 (addr_of c)"
    using last by (simp add: layoutLoop_frame cs_def c_def)
  then have bnd: "bounds (layoutLoop (rowRect cY cH) Width f cX cs h (addr_of c))
                    = rowRect cY cH (hp f) cur (bounds (hp (addr_of c)))"
    by (simp add: hp1_def SetBounds_def Bounds_def)
  have w: "Width (bounds (hp (addr_of c))) = Width (bounds (h (addr_of c)))"
    unfolding hp_def using layoutLoop_absorbed [OF pl] by blast
  have "X (bounds (layoutLoop (rowRect cY cH) Width f cX cs h (addr_of c))) = cur"
    and "Width (bounds (layoutLoop (rowRect cY cH) Width f cX cs h (addr_of c)))
           = Width (bounds (h (addr_of c)))"
    by (simp_all add: bnd rowRect_def Let_def w)
  then show ?thesis
    using run by (simp add: cur_def cX_def advance_def cs_def c_def)
qed

theorem C5_row_cursor_witness:
  "flexDirection (twoButtons 0) = FlexRow \<and>
   ComputedBounds 0 twoButtons = Some (\<lparr>X = 0, Y = 0, Width = 400, Height = 300\<rparr>, twoButtons) \<and>
   Children 0 twoButtons = [Element TButton 2, Element TButton 3] \<and>
   Width (bounds (twoButtons 2)) = 100 \<and> Width (bounds (twoButtons 3)) = 120 \<and>
   spacing (twoButtons 0) = 10 \<and>
   (\<exists>h'. updateLayout 0 twoButtons = Some h' \<and>
         X (bounds (h' 2)) = 0 \<and> Width (bounds (h' 2)) = 100 \<and>
         X (bounds (h' 3)) = 110 \<and> Width (bounds (h' 3)) = 120)"
proof -
  have row: "flexDirection (twoButtons 0) = FlexRow"
    by (simp add: twoButtons_0 newObject_def)
  have kids: "Children 0 twoButtons = [Element TButton 2, Element TButton 3]"
    by (simp add: Children_def twoButtons_0 newObject_def)
  have facts: "Width (bounds (twoButtons 2)) = 100" "Width (bounds (twoButtons 3)) = 120"
    "spacing (twoButtons 0) = 10" "Left (Padding (boxModel (twoButtons 0))) = 0"
    by (simp_all add: twoButtons_0 twoButtons_2 twoButtons_3 newObject_def)
  have i0: "0 < length (Children 0 twoButtons)" and i1: "Suc 0 < length (Children 0 twoButtons)"
    by (simp_all add: kids)
  have l0: "addr_of (Children 0 twoButtons ! 0) \<notin> addr_of ` set (drop (Suc 0) (Children 0 twoButtons))"
    and l1: "addr_of (Children 0 twoButtons ! Suc 0)
               \<notin> addr_of ` set (drop (Suc (Suc 0)) (Children 0 twoButtons))"
    by (simp_all add: kids)
  from C5_row_cursor [OF row twoButtons_bounds i0 l0] obtain h0 where
    r0: "updateLayout 0 twoButtons = Some h0" and
    x0: "X (bounds (h0 2)) = 0" "Width (bounds (h0 2)) = 100"
    by (auto simp: kids facts)
  from C5_row_cursor [OF row twoButtons_bounds i1 l1] obtain h1 where
    r1: "updateLayout 0 twoButtons = Some h1" and
    x1: "X (bounds (h1 3)) = 110" "Width (bounds (h1 3)) = 120"
    by (auto simp: kids facts)
  from r0 r1 have "h1 = h0" by simp
  with r0 x0 x1 row twoButtons_bounds kids facts show ?thesis
    by simp
qed


subsection \<open>Mutations leave the container laid out\<close>




end
